theory Spec2Isabelle
  imports Complex_Main
begin

section \<open>JavaScript values and strings\<close>

text \<open>
  The plugin is TypeScript running on the host's JavaScript engine. The values it reads
  from the host (frontmatter fields parsed from YAML, persisted settings parsed from JSON)
  are dynamically typed, so they are modelled by a datatype of JavaScript values. A
  missing property reads as \<open>JUndefined\<close>. A thrown exception is a value of type
  \<open>error\<close>, returned on the left of a sum.

  A string is a \<open>char list\<close>. Characters outside ASCII are the bytes of their UTF-8
  encoding; the operations below only inspect ASCII characters and leave every other byte
  as it is.
\<close>

datatype error = TypeError | HostError

datatype jsval =
    JUndefined
  | JNull
  | JBool bool
  | JNum int
  | JStr string
  | JArr "jsval list"
  | JObj "(string \<times> jsval) list"

type_synonym obj = "string \<rightharpoonup> jsval"

text \<open>Property read \<open>o.k\<close> on an object: a missing key reads as \<open>undefined\<close>.\<close>

definition getProp :: "obj \<Rightarrow> string \<Rightarrow> jsval" where
  "getProp ob k = (case ob k of None \<Rightarrow> JUndefined | Some v \<Rightarrow> v)"

text \<open>JavaScript truthiness, as used by \<open>&&\<close>, \<open>||\<close> and \<open>if\<close>.\<close>

fun truthy :: "jsval \<Rightarrow> bool" where
  "truthy JUndefined = False"
| "truthy JNull = False"
| "truthy (JBool b) = b"
| "truthy (JNum n) = (n \<noteq> 0)"
| "truthy (JStr s) = (s \<noteq> [])"
| "truthy (JArr xs) = True"
| "truthy (JObj kvs) = True"

text \<open>\<open>a || b\<close> on values.\<close>

definition js_or :: "jsval \<Rightarrow> jsval \<Rightarrow> jsval" where
  "js_or a b = (if truthy a then a else b)"

text \<open>
  \<open>String.prototype.toLowerCase\<close> on the ASCII letters: \<open>A\<close>..\<open>Z\<close> (65..90) become
  \<open>a\<close>..\<open>z\<close>; every other character is unchanged.
\<close>

definition lower_char :: "char \<Rightarrow> char" where
  "lower_char c =
     (let n = (of_char c :: nat) in if 65 \<le> n \<and> n \<le> 90 then char_of (n + 32) else c)"

definition toLowerCase :: "string \<Rightarrow> string" where
  "toLowerCase s = map lower_char s"

text \<open>
  The method call \<open>v.toLowerCase()\<close> on a value: only a string has the method; on any
  other value the call throws a TypeError.
\<close>

fun call_toLowerCase :: "jsval \<Rightarrow> error + string" where
  "call_toLowerCase (JStr s) = Inr (toLowerCase s)"
| "call_toLowerCase v = Inl TypeError"

text \<open>\<open>s.replace(/[^a-zA-Z0-9]/g, '')\<close>: keep the ASCII letters and digits only.\<close>

definition alnum :: "char \<Rightarrow> bool" where
  "alnum c =
     (let n = (of_char c :: nat)
      in (97 \<le> n \<and> n \<le> 122) \<or> (65 \<le> n \<and> n \<le> 90) \<or> (48 \<le> n \<and> n \<le> 57))"

definition sanitize :: "string \<Rightarrow> string" where
  "sanitize s = filter alnum s"

text \<open>
  A non-negative integer converted to a string, as a template literal \<open>${n}\<close> does:
  its decimal digits, most significant first, no leading zero.
\<close>

definition digit_char :: "nat \<Rightarrow> char" where
  "digit_char d = char_of (48 + d)"

function showNat :: "nat \<Rightarrow> string" where
  "showNat n = (if n < 10 then [digit_char n] else showNat (n div 10) @ [digit_char (n mod 10)])"
  by pat_completeness auto
termination
  by (relation "measure (\<lambda>n. n)") auto

declare showNat.simps [simp del]

text \<open>The line break \<open>\n\<close> and the double quote, as texts of one character.\<close>

definition newline :: string where
  "newline = [CHR 0x0A]"

definition dquote :: string where
  "dquote = [CHR 0x22]"

text \<open>\<open>xs.join('\n')\<close>.\<close>

fun join_nl :: "string list \<Rightarrow> string" where
  "join_nl [] = []"
| "join_nl [x] = x"
| "join_nl (x # y # ys) = x @ newline @ join_nl (y # ys)"

section \<open>Configuration\<close>

text \<open>
  The interface \<open>ArchitectSettings\<close> and its nested \<open>schema\<close> object, as the
  TypeScript declares them.
\<close>

record schema_labels =
  level1 :: string
  level2 :: string
  level3 :: string

record ArchitectSettings =
  analysisFolder :: string
  schema :: schema_labels

definition DEFAULT_SETTINGS :: ArchitectSettings where
  "DEFAULT_SETTINGS =
     \<lparr>analysisFolder = ''Data Analytics'',
      schema = \<lparr>level1 = ''Signal'', level2 = ''Pattern'', level3 = ''Constant''\<rparr>\<rparr>"

section \<open>Local logic: analyse one file\<close>

text \<open>
  Modelled from the spec: the host's metadata types (\<open>CachedMetadata\<close>, \<open>LinkCache\<close>)
  are declared by the host and are not part of the repository. The spec describes the
  metadata of a document as a frontmatter key-value mapping, an ordered list of outgoing
  links with a target and a display text, and a set of tags; the code reads \<open>links\<close>,
  \<open>frontmatter\<close> and \<open>tags\<close>, each possibly absent, and tests the tags with
  \<open>includes('#breakthrough')\<close>, so a tag is a string here.
\<close>

record LinkCache =
  link :: string
  linkDisplayText :: "string option"

record CachedMetadata =
  links :: "LinkCache list option"
  frontmatter :: "obj option"
  tags :: "string list option"

record node =
  name :: string
  displayText :: string

record ConnectionMap =
  myType :: string
  nodes :: "node list"

text \<open>
  The classification of \<open>scanConnections\<close>: \<open>myType\<close> starts as the level-1 label
  and is reassigned only when the frontmatter is present and its \<open>type\<close> is truthy.
  In the last branch \<open>myType = frontmatter.type\<close> the value is a string, since the call
  of \<open>toLowerCase\<close> on it has returned.
\<close>

definition scanConnections_myType :: "ArchitectSettings \<Rightarrow> obj option \<Rightarrow> error + string" where
  "scanConnections_myType settings fmo =
     (let myType = level1 (schema settings) in
      case fmo of
        None \<Rightarrow> Inr myType
      | Some fm \<Rightarrow>
          if truthy (getProp fm ''type'') then
            (case call_toLowerCase (getProp fm ''type'') of
               Inl e \<Rightarrow> Inl e
             | Inr t \<Rightarrow>
                 if t = ''law'' \<or> t = ''constant'' then Inr (level3 (schema settings))
                 else if t = ''molecule'' \<or> t = ''pattern'' then Inr (level2 (schema settings))
                 else if t = ''atom'' \<or> t = ''signal'' then Inr (level1 (schema settings))
                 else (case getProp fm ''type'' of JStr s \<Rightarrow> Inr s | _ \<Rightarrow> Inl TypeError))
          else Inr myType)"

text \<open>\<open>link.displayText || link.link\<close>: an absent or empty display text falls back to the target.\<close>

definition link_node :: "LinkCache \<Rightarrow> node" where
  "link_node l =
     \<lparr>name = link l,
      displayText = (case linkDisplayText l of
                       None \<Rightarrow> link l
                     | Some d \<Rightarrow> if d \<noteq> [] then d else link l)\<rparr>"

definition scanConnections :: "ArchitectSettings \<Rightarrow> CachedMetadata option \<Rightarrow> error + ConnectionMap" where
  "scanConnections settings cache =
     (let ls = (case cache of None \<Rightarrow> [] | Some c \<Rightarrow> (case links c of None \<Rightarrow> [] | Some xs \<Rightarrow> xs));
          fmo = (case cache of None \<Rightarrow> None | Some c \<Rightarrow> frontmatter c)
      in case scanConnections_myType settings fmo of
           Inl e \<Rightarrow> Inl e
         | Inr t \<Rightarrow> Inr \<lparr>myType = t, nodes = map link_node ls\<rparr>)"

text \<open>
  \<open>generateMermaid\<close>. The \<open>forEach\<close> over \<open>data.nodes\<close> is a recursion over the list
  that carries the index and the text built so far. \<open>safeCenter\<close> and \<open>safeNode\<close> are
  computed, as in the source, and not used.
\<close>

fun forEach_nodes :: "node list \<Rightarrow> nat \<Rightarrow> string \<Rightarrow> string" where
  "forEach_nodes [] index graph = graph"
| "forEach_nodes (nd # rest) index graph =
     (let safeNode = sanitize (name nd);
          graph = graph @ ''    Center --> Node'' @ showNat index @ ''['' @ dquote
                    @ displayText nd @ dquote @ '']'' @ newline
      in forEach_nodes rest (Suc index) graph)"

definition generateMermaid :: "ConnectionMap \<Rightarrow> string \<Rightarrow> string" where
  "generateMermaid data centralName =
     (let graph = ''graph TD'' @ newline;
          graph = graph @ ''    classDef signal fill:#e1f5fe,stroke:#01579b,stroke-width:2px;'' @ newline;
          graph = graph @ ''    classDef pattern fill:#e8f5e9,stroke:#1b5e20,stroke-width:4px;'' @ newline;
          graph = graph @ ''    classDef constant fill:#fff8e1,stroke:#ff6f00,stroke-width:6px;'' @ newline;
          centerClass = toLowerCase (myType data);
          safeCenter = sanitize centralName;
          graph = graph @ ''    Center['' @ dquote @ centralName @ dquote @ '']:::'' @ centerClass @ newline
      in forEach_nodes (nodes data) 0 graph)"

text \<open>
  The grammar of the generated diagram, for stating what \<open>generateMermaid\<close> emits: the
  identifier of the node at a position, the edge declaration of that node, and the four
  fixed lines with the declaration of the center node that precede the edges.
\<close>

definition nodeId :: "nat \<Rightarrow> string" where
  "nodeId i = ''Node'' @ showNat i"

definition edgeDecl :: "nat \<Rightarrow> node \<Rightarrow> string" where
  "edgeDecl i nd =
     ''    Center --> '' @ nodeId i @ ''['' @ dquote @ displayText nd @ dquote @ '']'' @ newline"

definition edgeDecls :: "node list \<Rightarrow> string list" where
  "edgeDecls ns = map (\<lambda>i. edgeDecl i (ns ! i)) [0..<length ns]"

definition mermaid_preamble :: "string \<Rightarrow> string \<Rightarrow> string" where
  "mermaid_preamble centerClass centralName =
     ''graph TD'' @ newline
     @ ''    classDef signal fill:#e1f5fe,stroke:#01579b,stroke-width:2px;'' @ newline
     @ ''    classDef pattern fill:#e8f5e9,stroke:#1b5e20,stroke-width:4px;'' @ newline
     @ ''    classDef constant fill:#fff8e1,stroke:#ff6f00,stroke-width:6px;'' @ newline
     @ ''    Center['' @ dquote @ centralName @ dquote @ '']:::'' @ centerClass @ newline"

text \<open>Reading a decimal numeral back: the inverse of \<open>showNat\<close>.\<close>

definition readNat :: "string \<Rightarrow> nat" where
  "readNat s = foldl (\<lambda>a c. 10 * a + (of_char c - 48)) 0 s"

text \<open>The number of line breaks in a text.\<close>

definition line_breaks :: "string \<Rightarrow> nat" where
  "line_breaks s = length (filter (\<lambda>c. c = CHR 0x0A) s)"

section \<open>Global logic: the analytics dashboard\<close>

text \<open>
  A Markdown file of the vault with what \<open>metadataCache.getFileCache\<close> returns for it
  (\<open>None\<close> is \<open>null\<close>: the host has no cache entry for the file).
\<close>

record vault_file =
  basename :: string
  cache :: "CachedMetadata option"

text \<open>
  The data the scan accumulates: the four counters of \<open>counts\<close> and the two lists of
  link lines.
\<close>

record AggregateCounts =
  signals :: nat
  patterns :: nat
  constants :: nat
  breakthroughs :: nat
  constantList :: "string list"
  patternList :: "string list"

definition initialCounts :: AggregateCounts where
  "initialCounts =
     \<lparr>signals = 0, patterns = 0, constants = 0, breakthroughs = 0,
      constantList = [], patternList = []\<rparr>"

text \<open>\<open>cache.tags?.includes('#breakthrough')\<close>: false when the cache has no tags.\<close>

definition tags_include :: "CachedMetadata \<Rightarrow> string \<Rightarrow> bool" where
  "tags_include c t = (case tags c of None \<Rightarrow> False | Some ts \<Rightarrow> t \<in> set ts)"

text \<open>
  The body of the loop over the files. A file without frontmatter is skipped
  (\<open>continue\<close>). \<open>(fm.type || "").toLowerCase()\<close> throws when \<open>fm.type\<close> is truthy and
  not a string, which aborts the whole scan.
\<close>

definition crunch_file :: "vault_file \<Rightarrow> AggregateCounts \<Rightarrow> error + AggregateCounts" where
  "crunch_file file c =
     (case cache file of
        None \<Rightarrow> Inr c
      | Some ch \<Rightarrow>
          (case frontmatter ch of
             None \<Rightarrow> Inr c
           | Some fm \<Rightarrow>
               (case call_toLowerCase (js_or (getProp fm ''type'') (JStr [])) of
                  Inl e \<Rightarrow> Inl e
                | Inr type \<Rightarrow>
                    (let c = (if type = ''atom'' \<or> type = ''signal''
                              then c\<lparr>signals := signals c + 1\<rparr> else c);
                         c = (if type = ''molecule'' \<or> type = ''pattern''
                              then c\<lparr>patterns := patterns c + 1,
                                     patternList := patternList c @ [''- [['' @ basename file @ '']]'']\<rparr>
                              else c);
                         c = (if type = ''law'' \<or> type = ''constant''
                              then c\<lparr>constants := constants c + 1,
                                     constantList := constantList c @ [''- [['' @ basename file @ '']]'']\<rparr>
                              else c);
                         c = (if tags_include ch ''#breakthrough'' \<or> getProp fm ''breakthrough'' = JBool True
                              then c\<lparr>breakthroughs := breakthroughs c + 1\<rparr> else c)
                     in Inr c))))"

fun crunch :: "vault_file list \<Rightarrow> AggregateCounts \<Rightarrow> error + AggregateCounts" where
  "crunch [] c = Inr c"
| "crunch (file # files) c =
     (case crunch_file file c of Inl e \<Rightarrow> Inl e | Inr c' \<Rightarrow> crunch files c')"

definition aggregate :: "vault_file list \<Rightarrow> error + AggregateCounts" where
  "aggregate files = crunch files initialCounts"

text \<open>\<open>s || d\<close> on strings: the empty string is falsy.\<close>

definition str_or :: "string \<Rightarrow> string \<Rightarrow> string" where
  "str_or s d = (if s \<noteq> [] then s else d)"

text \<open>
  The dashboard content up to the insights heading: the template literal, line by line,
  each line followed by a line break. \<open>now\<close> is the text that
  \<open>new Date().toLocaleString()\<close> returns when the dashboard is built: it is read from
  the clock, so it is an input of the model.
\<close>

definition dashboard_template :: "AggregateCounts \<Rightarrow> string \<Rightarrow> string" where
  "dashboard_template c now =
     concat (map (\<lambda>l. l @ newline)
       [''---'',
        ''cssclass: dashboard'',
        ''tags: [dashboard, analytics]'',
        ''updated: '' @ now,
        ''---'',
        '''',
        ''<div class='' @ dquote @ ''architect-dashboard-header'' @ dquote @ ''>'',
        ''  <h1>'' @ [CHR 0xF0, CHR 0x9F, CHR 0x8F, CHR 0x9B] @ [CHR 0xEF, CHR 0xB8, CHR 0x8F] @ '' THEOPHYSICS ARCHITECT</h1>'',
        ''  <p>Global Structure Analysis</p>'',
        ''</div>'',
        '''',
        ''<div class='' @ dquote @ ''architect-stat-container'' @ dquote @ ''>'',
        ''  <div class='' @ dquote @ ''architect-stat-box'' @ dquote @ ''>'',
        ''    <div class='' @ dquote @ ''architect-stat-number'' @ dquote @ ''>'' @ showNat (signals c) @ ''</div>'',
        ''    <div class='' @ dquote @ ''architect-stat-label'' @ dquote @ ''>Signals</div>'',
        ''  </div>'',
        ''  <div class='' @ dquote @ ''architect-stat-box'' @ dquote @ ''>'',
        ''    <div class='' @ dquote @ ''architect-stat-number'' @ dquote @ ''>'' @ showNat (patterns c) @ ''</div>'',
        ''    <div class='' @ dquote @ ''architect-stat-label'' @ dquote @ ''>Patterns</div>'',
        ''  </div>'',
        ''  <div class='' @ dquote @ ''architect-stat-box'' @ dquote @ ''>'',
        ''    <div class='' @ dquote @ ''architect-stat-number'' @ dquote @ ''>'' @ showNat (constants c) @ ''</div>'',
        ''    <div class='' @ dquote @ ''architect-stat-label'' @ dquote @ ''>Constants</div>'',
        ''  </div>'',
        ''</div>'',
        '''',
        ''## '' @ [CHR 0xF0, CHR 0x9F, CHR 0x9A, CHR 0x80] @ '' Breakthrough Velocity'',
        ''**Total Breakthroughs:** '' @ showNat (breakthroughs c),
        '''',
        ''---'',
        '''',
        ''## '' @ [CHR 0xF0, CHR 0x9F, CHR 0x8C, CHR 0x8C] @ '' The Constants (Laws)'',
        ''> *These are the bedrock truths.*'',
        str_or (join_nl (constantList c)) ''_No Constants defined yet._'',
        '''',
        ''---'',
        '''',
        ''## '' @ [CHR 0xF0, CHR 0x9F, CHR 0xA7, CHR 0xAC] @ '' The Patterns (Molecules)'',
        ''> *Where Physics and Theology represent the same shape.*'',
        str_or (join_nl (patternList c)) ''_No Patterns defined yet._'',
        '''',
        ''---'',
        '''',
        ''## '' @ [CHR 0xF0, CHR 0x9F, CHR 0xA7, CHR 0xA0] @ '' Analytics Insights''])"

text \<open>
  Numbers. The counters are non-negative integers below \<open>2^53\<close>, which a JavaScript
  number (binary64) holds exactly. The quotient of two of them is rounded to the nearest
  binary64 value, ties to the even significand: with \<open>2^e \<le> a / b < 2^(e+1)\<close> the
  result is the multiple of \<open>2^(e-52)\<close> nearest to \<open>a / b\<close>. The result is kept as the
  rational number it denotes. (Exponents stay far inside the range of binary64 for such
  operands, so there is no overflow and no subnormal result.)
\<close>

fun bit_length :: "nat \<Rightarrow> nat" where
  "bit_length n = (if n = 0 then 0 else Suc (bit_length (n div 2)))"

declare bit_length.simps [simp del]

definition binary_exponent :: "nat \<Rightarrow> nat \<Rightarrow> int" where
  "binary_exponent a b =
     (let e = int (bit_length a) - int (bit_length b)
      in if (2::rat) powi e \<le> of_nat a / of_nat b then e else e - 1)"

definition round_half_even :: "rat \<Rightarrow> int" where
  "round_half_even y =
     (let f = \<lfloor>y\<rfloor>; d = y - of_int f
      in if d < 1 / 2 then f else if d > 1 / 2 then f + 1 else if even f then f else f + 1)"

definition binary64_div :: "nat \<Rightarrow> nat \<Rightarrow> rat" where
  "binary64_div a b =
     (if a = 0 then 0
      else let ulp = (2::rat) powi (binary_exponent a b - 52)
           in of_int (round_half_even (of_nat a / of_nat b / ulp)) * ulp)"

text \<open>\<open>counts.signals / (counts.patterns || 1)\<close>: zero is falsy, so a zero divisor becomes 1.\<close>

definition ratio :: "AggregateCounts \<Rightarrow> rat" where
  "ratio c = binary64_div (signals c) (if patterns c \<noteq> 0 then patterns c else 1)"

text \<open>
  \<open>x.toFixed(1)\<close> for \<open>0 \<le> x < 10^21\<close>: the integer \<open>n\<close> for which \<open>n / 10\<close> is nearest
  to the exact value of \<open>x\<close>, the larger one when two are equally near, printed with one
  digit after the point.
\<close>

definition toFixed1 :: "rat \<Rightarrow> string" where
  "toFixed1 x = (let n = nat \<lfloor>10 * x + 1 / 2\<rfloor> in showNat (n div 10) @ ''.'' @ showNat (n mod 10))"

definition highSignalNoise :: "string \<Rightarrow> string" where
  "highSignalNoise r =
     ''> [!WARNING] High Signal Noise'' @ newline
     @ ''> You have '' @ r @ '' signals for every pattern. **Action:** Start synthesizing ''
     @ dquote @ ''Circling'' @ dquote @ '' ideas into '' @ dquote @ ''Reframed'' @ dquote
     @ '' Patterns.'' @ newline"

definition readyForBreakthrough :: string where
  "readyForBreakthrough =
     ''> [!TIP] Ready for Breakthrough'' @ newline
     @ ''> You have strong Patterns but no Constants. **Action:** Review your top Patterns to see which one is a Universal Law.''
     @ newline"

definition healthyArchitecture :: string where
  "healthyArchitecture =
     ''> [!SUCCESS] Healthy Architecture'' @ newline
     @ ''> Good balance between raw signals and crystallized truth.'' @ newline"

text \<open>The text the branch \<open>if (ratio > 10) ... else if ... else ...\<close> appends.\<close>

definition insights :: "AggregateCounts \<Rightarrow> string" where
  "insights c =
     (if ratio c > 10 then highSignalNoise (toFixed1 (ratio c))
      else if constants c = 0 \<and> patterns c > 5 then readyForBreakthrough
      else healthyArchitecture)"

text \<open>The dashboard content \<open>md\<close> that is saved.\<close>

definition dashboard_md :: "AggregateCounts \<Rightarrow> string \<Rightarrow> string" where
  "dashboard_md c now = dashboard_template c now @ insights c"

text \<open>The start of the content, up to the place of the timestamp.\<close>

definition md_prefix :: string where
  "md_prefix =
     ''---'' @ newline @ ''cssclass: dashboard'' @ newline
     @ ''tags: [dashboard, analytics]'' @ newline @ ''updated: ''"

section \<open>The host's vault and the report writer\<close>

text \<open>
  Modelled from the spec: the host storage provider (the \<open>Vault\<close> of the note-taking
  application) is not part of the repository. The spec lists what it exposes: a
  folder-existence check, folder creation, a file-existence check, file creation, file
  content replacement, and focusing a file in the user interface. The vault is a map from
  paths to entries. Creating a folder or a file at a path that already holds an entry is a
  host error, and so is replacing the content of something that is not a file.
\<close>

datatype abstract_file = TFile string | TFolder

record host =
  entries :: "string \<rightharpoonup> abstract_file"
  notices :: "string list"
  opened :: "string list"

definition getAbstractFileByPath :: "host \<Rightarrow> string \<Rightarrow> abstract_file option" where
  "getAbstractFileByPath h p = entries h p"

definition createFolder :: "host \<Rightarrow> string \<Rightarrow> error + host" where
  "createFolder h p =
     (case entries h p of
        None \<Rightarrow> Inr (h\<lparr>entries := (entries h)(p \<mapsto> TFolder)\<rparr>)
      | Some e \<Rightarrow> Inl HostError)"

definition modify :: "host \<Rightarrow> string \<Rightarrow> string \<Rightarrow> error + host" where
  "modify h p content =
     (case entries h p of
        Some (TFile old) \<Rightarrow> Inr (h\<lparr>entries := (entries h)(p \<mapsto> TFile content)\<rparr>)
      | _ \<Rightarrow> Inl HostError)"

definition create :: "host \<Rightarrow> string \<Rightarrow> string \<Rightarrow> error + host" where
  "create h p content =
     (case entries h p of
        None \<Rightarrow> Inr (h\<lparr>entries := (entries h)(p \<mapsto> TFile content)\<rparr>)
      | Some e \<Rightarrow> Inl HostError)"

definition Notice :: "string \<Rightarrow> host \<Rightarrow> host" where
  "Notice msg h = h\<lparr>notices := notices h @ [msg]\<rparr>"

definition openFile :: "string \<Rightarrow> host \<Rightarrow> host" where
  "openFile p h = h\<lparr>opened := opened h @ [p]\<rparr>"

definition isTFile :: "abstract_file option \<Rightarrow> bool" where
  "isTFile f = (case f of Some (TFile content) \<Rightarrow> True | _ \<Rightarrow> False)"

text \<open>
  \<open>saveToAnalysisFolder\<close>. The host's \<open>normalizePath\<close> is a parameter. Every awaited
  host call that fails ends the function with that error.
\<close>

definition saveToAnalysisFolder ::
  "(string \<Rightarrow> string) \<Rightarrow> ArchitectSettings \<Rightarrow> string \<Rightarrow> string \<Rightarrow> host \<Rightarrow> error + host" where
  "saveToAnalysisFolder normalizePath settings filename content h =
     (let folderPath = normalizePath (analysisFolder settings);
          folder = getAbstractFileByPath h folderPath
      in case (if folder = None then createFolder h folderPath else Inr h) of
           Inl e \<Rightarrow> Inl e
         | Inr h \<Rightarrow>
             (let filePath = normalizePath (folderPath @ ''/'' @ filename);
                  file = getAbstractFileByPath h filePath
              in case (if isTFile file
                       then (case modify h filePath content of
                               Inl e \<Rightarrow> Inl e
                             | Inr h \<Rightarrow> Inr (Notice (''Updated: '' @ filePath) h))
                       else (case create h filePath content of
                               Inl e \<Rightarrow> Inl e
                             | Inr h \<Rightarrow> Inr (Notice (''Created: '' @ filePath) h))) of
                   Inl e \<Rightarrow> Inl e
                 | Inr h \<Rightarrow>
                     (let targetFile = getAbstractFileByPath h filePath
                      in if isTFile targetFile then Inr (openFile filePath h) else Inr h)))"

text \<open>The path the dashboard is written to.\<close>

definition analysisPath :: "(string \<Rightarrow> string) \<Rightarrow> ArchitectSettings \<Rightarrow> string \<Rightarrow> string" where
  "analysisPath normalizePath settings filename =
     normalizePath (normalizePath (analysisFolder settings) @ ''/'' @ filename)"

definition generateGlobalDashboard ::
  "(string \<Rightarrow> string) \<Rightarrow> ArchitectSettings \<Rightarrow> vault_file list \<Rightarrow> string \<Rightarrow> host \<Rightarrow> error + host" where
  "generateGlobalDashboard normalizePath settings files now h =
     (let h = Notice ''Architect: Scanning entire vault...'' h
      in case crunch files initialCounts of
           Inl e \<Rightarrow> Inl e
         | Inr counts \<Rightarrow>
             saveToAnalysisFolder normalizePath settings ''ARCHITECT_ANALYTICS_DASHBOARD.md''
               (dashboard_md counts now) h)"

section \<open>Loading the settings\<close>

text \<open>
  \<open>loadData\<close> returns what the host has stored for the plugin: a JSON object, or \<open>null\<close>
  when nothing is stored. \<open>Object.assign(target, ...sources)\<close> copies the own properties
  of each source, in order, onto the target and skips a \<open>null\<close> source. The typed
  settings are the object with their two properties.
\<close>

definition settings_obj :: "ArchitectSettings \<Rightarrow> obj" where
  "settings_obj s =
     [''analysisFolder'' \<mapsto> JStr (analysisFolder s),
      ''schema'' \<mapsto> JObj [(''level1'', JStr (level1 (schema s))),
                          (''level2'', JStr (level2 (schema s))),
                          (''level3'', JStr (level3 (schema s)))]]"

fun Object_assign :: "obj \<Rightarrow> obj option list \<Rightarrow> obj" where
  "Object_assign target [] = target"
| "Object_assign target (None # sources) = Object_assign target sources"
| "Object_assign target (Some src # sources) = Object_assign (target ++ src) sources"

definition loadSettings :: "obj option \<Rightarrow> obj" where
  "loadSettings data = Object_assign Map.empty [Some (settings_obj DEFAULT_SETTINGS), data]"

section \<open>Vocabulary of the specification\<close>

text \<open>
  The tier mapping as the specification words it: a fixed lookup on the lower-cased
  \<open>type\<close> value (atom or signal: tier 1; molecule or pattern: tier 2; law or constant:
  tier 3), and any other value is a custom tier named by the value itself.
\<close>

datatype tier = Tier1 | Tier2 | Tier3 | Custom string

definition tier_lookup :: "string \<Rightarrow> tier" where
  "tier_lookup t =
     (let l = toLowerCase t in
      if l \<in> {''atom'', ''signal''} then Tier1
      else if l \<in> {''molecule'', ''pattern''} then Tier2
      else if l \<in> {''law'', ''constant''} then Tier3
      else Custom t)"

fun tier_label :: "ArchitectSettings \<Rightarrow> tier \<Rightarrow> string" where
  "tier_label s Tier1 = level1 (schema s)"
| "tier_label s Tier2 = level2 (schema s)"
| "tier_label s Tier3 = level3 (schema s)"
| "tier_label s (Custom t) = t"

text \<open>The three tier counters after a document of the given tier has been tallied.\<close>

fun tier_bucket :: "tier \<Rightarrow> nat \<times> nat \<times> nat \<Rightarrow> nat \<times> nat \<times> nat" where
  "tier_bucket Tier1 (s, p, k) = (s + 1, p, k)"
| "tier_bucket Tier2 (s, p, k) = (s, p + 1, k)"
| "tier_bucket Tier3 (s, p, k) = (s, p, k + 1)"
| "tier_bucket (Custom t) (s, p, k) = (s, p, k)"

definition tier_counters :: "AggregateCounts \<Rightarrow> nat \<times> nat \<times> nat" where
  "tier_counters c = (signals c, patterns c, constants c)"

text \<open>The frontmatter of a file, when it has one.\<close>

definition file_frontmatter :: "vault_file \<Rightarrow> obj option" where
  "file_frontmatter f = (case cache f of None \<Rightarrow> None | Some ch \<Rightarrow> frontmatter ch)"

definition hasFrontmatter :: "vault_file \<Rightarrow> bool" where
  "hasFrontmatter f = (file_frontmatter f \<noteq> None)"

text \<open>
  The \<open>type\<close> of a file is readable when the file has no frontmatter, or the field is a
  string, or the field is falsy (absent, \<open>null\<close>, \<open>false\<close>, zero): these are the files on
  which the scan does not throw.
\<close>

definition type_readable :: "vault_file \<Rightarrow> bool" where
  "type_readable f =
     (case file_frontmatter f of
        None \<Rightarrow> True
      | Some fm \<Rightarrow> (case getProp fm ''type'' of JStr t \<Rightarrow> True | v \<Rightarrow> \<not> truthy v))"

text \<open>The lower-cased \<open>type\<close> string of a file with frontmatter; empty when the field is falsy.\<close>

definition lowered_type :: "vault_file \<Rightarrow> string option" where
  "lowered_type f =
     (case file_frontmatter f of
        None \<Rightarrow> None
      | Some fm \<Rightarrow> (case getProp fm ''type'' of JStr t \<Rightarrow> Some (toLowerCase t) | v \<Rightarrow> Some []))"

definition type_among :: "string list \<Rightarrow> vault_file \<Rightarrow> bool" where
  "type_among ws f = (case lowered_type f of None \<Rightarrow> False | Some t \<Rightarrow> t \<in> set ws)"

definition canonical_type :: "vault_file \<Rightarrow> bool" where
  "canonical_type f = type_among [''atom'', ''signal'', ''molecule'', ''pattern'', ''law'', ''constant''] f"

text \<open>
  A breakthrough document: it has frontmatter, and its tags contain \<open>#breakthrough\<close> or
  its frontmatter field \<open>breakthrough\<close> is the boolean \<open>true\<close>.
\<close>

definition isBreakthrough :: "vault_file \<Rightarrow> bool" where
  "isBreakthrough f =
     (case cache f of
        None \<Rightarrow> False
      | Some ch \<Rightarrow>
          (case frontmatter ch of
             None \<Rightarrow> False
           | Some fm \<Rightarrow>
               ''#breakthrough'' \<in> (case tags ch of None \<Rightarrow> {} | Some ts \<Rightarrow> set ts)
               \<or> fm ''breakthrough'' = Some (JBool True)))"

text \<open>The counts after a file whose \<open>type\<close> is readable has been tallied.\<close>

definition tallied :: "vault_file \<Rightarrow> AggregateCounts \<Rightarrow> AggregateCounts" where
  "tallied f c =
     c\<lparr>signals := signals c + (if type_among [''atom'', ''signal''] f then 1 else 0),
       patterns := patterns c + (if type_among [''molecule'', ''pattern''] f then 1 else 0),
       constants := constants c + (if type_among [''law'', ''constant''] f then 1 else 0),
       breakthroughs := breakthroughs c + (if isBreakthrough f then 1 else 0),
       constantList := constantList c
         @ (if type_among [''law'', ''constant''] f then [''- [['' @ basename f @ '']]''] else []),
       patternList := patternList c
         @ (if type_among [''molecule'', ''pattern''] f then [''- [['' @ basename f @ '']]''] else [])\<rparr>"

section \<open>Example inputs\<close>

definition md_note :: "string \<Rightarrow> obj option \<Rightarrow> string list option \<Rightarrow> vault_file" where
  "md_note b fm ts = \<lparr>basename = b, cache = Some \<lparr>links = None, frontmatter = fm, tags = ts\<rparr>\<rparr>"

definition example_vault :: "vault_file list" where
  "example_vault =
     [md_note ''Gravity'' (Some [''type'' \<mapsto> JStr ''Law'', ''breakthrough'' \<mapsto> JBool True])
        (Some [''#breakthrough'']),
      md_note ''Resonance'' (Some [''type'' \<mapsto> JStr ''pattern'']) (Some [''#idea'', ''#breakthrough'']),
      md_note ''Hunch'' (Some [''type'' \<mapsto> JStr ''ATOM'', ''breakthrough'' \<mapsto> JStr ''true'']) None,
      md_note ''Scratch'' None (Some [''#breakthrough'']),
      \<lparr>basename = ''Uncached'', cache = None\<rparr>]"

definition empty_vault :: host where
  "empty_vault = \<lparr>entries = Map.empty, notices = [], opened = []\<rparr>"

definition vault_with_dashboard :: host where
  "vault_with_dashboard =
     \<lparr>entries = [''Data Analytics'' \<mapsto> TFolder,
                 ''Data Analytics/ARCHITECT_ANALYTICS_DASHBOARD.md'' \<mapsto> TFile ''stale dashboard''],
      notices = [], opened = []\<rparr>"

section \<open>The classifier\<close>

text \<open>
  C1. For a frontmatter \<open>type\<close> that is a string or absent, the classification of
  \<open>scanConnections\<close> returns the level-1 label when the lower-cased value is \<open>atom\<close> or
  \<open>signal\<close>, the level-2 label for \<open>molecule\<close> or \<open>pattern\<close>, the level-3 label for
  \<open>law\<close> or \<open>constant\<close>, the value itself for any other non-empty string, and the level-1
  label when the field or the whole frontmatter is absent. On all these inputs it returns
  a label and never an error. (The empty string, which the claim leaves open, is falsy and
  gets the level-1 label.)
\<close>

theorem classifier_cases:
  "scanConnections_myType s None = Inr (level1 (schema s))
   \<and> (getProp fm ''type'' = JUndefined \<longrightarrow>
        scanConnections_myType s (Some fm) = Inr (level1 (schema s)))
   \<and> (getProp fm ''type'' = JStr t \<longrightarrow>
        (toLowerCase t \<in> {''atom'', ''signal''} \<longrightarrow>
           scanConnections_myType s (Some fm) = Inr (level1 (schema s)))
      \<and> (toLowerCase t \<in> {''molecule'', ''pattern''} \<longrightarrow>
           scanConnections_myType s (Some fm) = Inr (level2 (schema s)))
      \<and> (toLowerCase t \<in> {''law'', ''constant''} \<longrightarrow>
           scanConnections_myType s (Some fm) = Inr (level3 (schema s)))
      \<and> (t \<noteq> [] \<and> toLowerCase t \<notin> {''atom'', ''signal'', ''molecule'', ''pattern'', ''law'', ''constant''} \<longrightarrow>
           scanConnections_myType s (Some fm) = Inr t)
      \<and> (t = [] \<longrightarrow> scanConnections_myType s (Some fm) = Inr (level1 (schema s)))
      \<and> (\<exists>r. scanConnections_myType s (Some fm) = Inr r))"
  by (auto simp: scanConnections_myType_def toLowerCase_def)

lemma lower_Atom: "toLowerCase ''Atom'' = ''atom''"
  by code_simp

lemma lower_PATTERN: "toLowerCase ''PATTERN'' = ''pattern''"
  by code_simp

lemma lower_Law: "toLowerCase ''Law'' = ''law''"
  by code_simp

lemma lower_Idea:
  "toLowerCase ''Idea'' \<notin> {''atom'', ''signal'', ''molecule'', ''pattern'', ''law'', ''constant''}"
  by code_simp

theorem classifier_cases_witness:
  "scanConnections_myType DEFAULT_SETTINGS (Some [''type'' \<mapsto> JStr ''Atom'']) = Inr ''Signal''
   \<and> scanConnections_myType DEFAULT_SETTINGS (Some [''type'' \<mapsto> JStr ''PATTERN'']) = Inr ''Pattern''
   \<and> scanConnections_myType DEFAULT_SETTINGS (Some [''type'' \<mapsto> JStr ''Law'']) = Inr ''Constant''
   \<and> scanConnections_myType DEFAULT_SETTINGS (Some [''type'' \<mapsto> JStr ''Idea'']) = Inr ''Idea''
   \<and> scanConnections_myType DEFAULT_SETTINGS (Some [''tags'' \<mapsto> JArr []]) = Inr ''Signal''"
proof -
  have a: "scanConnections_myType DEFAULT_SETTINGS (Some [''type'' \<mapsto> JStr ''Atom'']) = Inr ''Signal''"
    using classifier_cases [of DEFAULT_SETTINGS "[''type'' \<mapsto> JStr ''Atom'']" "''Atom''"] lower_Atom
    by (simp add: getProp_def DEFAULT_SETTINGS_def)
  have b: "scanConnections_myType DEFAULT_SETTINGS (Some [''type'' \<mapsto> JStr ''PATTERN'']) = Inr ''Pattern''"
    using classifier_cases [of DEFAULT_SETTINGS "[''type'' \<mapsto> JStr ''PATTERN'']" "''PATTERN''"] lower_PATTERN
    by (simp add: getProp_def DEFAULT_SETTINGS_def)
  have c: "scanConnections_myType DEFAULT_SETTINGS (Some [''type'' \<mapsto> JStr ''Law'']) = Inr ''Constant''"
    using classifier_cases [of DEFAULT_SETTINGS "[''type'' \<mapsto> JStr ''Law'']" "''Law''"] lower_Law
    by (simp add: getProp_def DEFAULT_SETTINGS_def)
  have d: "scanConnections_myType DEFAULT_SETTINGS (Some [''type'' \<mapsto> JStr ''Idea'']) = Inr ''Idea''"
    using classifier_cases [of DEFAULT_SETTINGS "[''type'' \<mapsto> JStr ''Idea'']" "''Idea''"] lower_Idea
    by (simp add: getProp_def DEFAULT_SETTINGS_def)
  have e: "scanConnections_myType DEFAULT_SETTINGS (Some [''tags'' \<mapsto> JArr []]) = Inr ''Signal''"
    using classifier_cases [of DEFAULT_SETTINGS "[''tags'' \<mapsto> JArr []]"]
    by (simp add: getProp_def DEFAULT_SETTINGS_def)
  from a b c d e show ?thesis by simp
qed

text \<open>Outside the claim's domain the classification can throw: a truthy \<open>type\<close> that is not a string.\<close>

lemma classifier_throws_on_number:
  "scanConnections_myType s (Some [''type'' \<mapsto> JNum 5]) = Inl TypeError"
  by (simp add: scanConnections_myType_def getProp_def)

text \<open>The scan lists one node per outgoing link, in the order of the links.\<close>

lemma scanConnections_nodes:
  "scanConnections s (Some ch) = Inr m \<Longrightarrow>
     nodes m = map link_node (case links ch of None \<Rightarrow> [] | Some ls \<Rightarrow> ls)"
  by (auto simp: scanConnections_def Let_def split: sum.splits)

section \<open>The diagram\<close>

lemma of_char_digit_char: "d < 10 \<Longrightarrow> of_char (digit_char d) = 48 + d"
  by (simp add: digit_char_def)

lemma readNat_snoc: "readNat (s @ [c]) = 10 * readNat s + (of_char c - 48)"
  by (simp add: readNat_def)

lemma readNat_showNat: "readNat (showNat n) = n"
proof (induction n rule: showNat.induct)
  case (1 n)
  show ?case
  proof (cases "n < 10")
    case True
    then show ?thesis
      by (subst showNat.simps) (simp add: readNat_def of_char_digit_char)
  next
    case False
    then have "readNat (showNat (n div 10)) = n div 10"
      using 1 by simp
    with False show ?thesis
      by (subst showNat.simps) (simp add: readNat_snoc of_char_digit_char)
  qed
qed

lemma showNat_inj: "showNat m = showNat n \<Longrightarrow> m = n"
  by (metis readNat_showNat)

lemma nodeId_inj: "inj nodeId"
  by (auto simp: inj_def nodeId_def dest: showNat_inj)

lemma nodeId_not_Center: "nodeId i \<noteq> ''Center''"
  by (simp add: nodeId_def)

lemma distinct_node_ids: "distinct (''Center'' # map nodeId [0..<n])"
proof -
  have "''Center'' \<notin> set (map nodeId [0..<n])"
    using nodeId_not_Center by (auto simp: image_iff) metis
  moreover have "distinct (map nodeId [0..<n])"
    by (simp add: distinct_map inj_on_def) (metis injD [OF nodeId_inj])
  ultimately show ?thesis by simp
qed

lemma forEach_nodes_append:
  "forEach_nodes ns k g = g @ concat (map (\<lambda>i. edgeDecl (k + i) (ns ! i)) [0..<length ns])"
proof (induction ns arbitrary: k g)
  case Nil
  then show ?case by simp
next
  case (Cons nd rest)
  have "map (\<lambda>i. edgeDecl (k + i) ((nd # rest) ! i)) [0..<length (nd # rest)]
        = edgeDecl k nd # map (\<lambda>i. edgeDecl (Suc k + i) (rest ! i)) [0..<length rest]"
    by (simp add: upt_conv_Cons map_Suc_upt [symmetric] del: upt_Suc)
  then show ?case
    using Cons.IH [of "Suc k"] by (simp add: edgeDecl_def nodeId_def Let_def)
qed

lemma generateMermaid_eq:
  "generateMermaid d c
     = mermaid_preamble (toLowerCase (myType d)) c @ concat (edgeDecls (nodes d))"
  by (simp add: generateMermaid_def mermaid_preamble_def edgeDecls_def forEach_nodes_append Let_def)

lemma edgeDecls_displayText:
  assumes "map displayText ns = map displayText ms"
  shows "edgeDecls ns = edgeDecls ms"
proof -
  have len: "length ns = length ms"
    using assms by (metis length_map)
  have "displayText (ns ! i) = displayText (ms ! i)" if "i < length ns" for i
    using assms that len by (metis nth_map)
  then show ?thesis
    by (simp add: edgeDecls_def edgeDecl_def len)
qed

text \<open>
  C5. \<open>generateMermaid\<close> emits, after the fixed lines and the center node, exactly one
  edge declaration per outgoing link: the text is the preamble followed by the edge
  declarations of the positions \<open>0 .. n - 1\<close>, as many as there are links. The node
  identifiers of one rendering (\<open>Center\<close>, \<open>Node0\<close>, \<open>Node1\<close>, ...) are pairwise distinct
  for every input, whatever the names sanitize to, since they are built from the position.
\<close>

theorem generateMermaid_edges:
  "generateMermaid d c
     = mermaid_preamble (toLowerCase (myType d)) c @ concat (edgeDecls (nodes d))
   \<and> length (edgeDecls (nodes d)) = length (nodes d)
   \<and> distinct (''Center'' # map nodeId [0..<length (nodes d)])"
proof -
  have "length (edgeDecls (nodes d)) = length (nodes d)"
    by (simp add: edgeDecls_def)
  with generateMermaid_eq [of d c] distinct_node_ids [of "length (nodes d)"]
  show ?thesis by blast
qed

text \<open>
  The positions of the example have names that sanitize to the same text (\<open>a b\<close> and
  \<open>ab\<close>) and to the empty text (\<open>?!\<close>); the identifiers are \<open>Node0\<close>, \<open>Node1\<close>,
  \<open>Node2\<close> all the same.
\<close>

lemma generateMermaid_example:
  "generateMermaid
     \<lparr>myType = ''Signal'',
      nodes = [\<lparr>name = ''a b'', displayText = ''one''\<rparr>, \<lparr>name = ''ab'', displayText = ''two''\<rparr>,
               \<lparr>name = ''?!'', displayText = ''three''\<rparr>]\<rparr> ''Hub''
   = mermaid_preamble ''signal'' ''Hub''
     @ ''    Center --> Node0['' @ dquote @ ''one'' @ dquote @ '']'' @ newline
     @ ''    Center --> Node1['' @ dquote @ ''two'' @ dquote @ '']'' @ newline
     @ ''    Center --> Node2['' @ dquote @ ''three'' @ dquote @ '']'' @ newline"
  by code_simp

lemma sanitize_examples: "sanitize ''a b'' = sanitize ''ab'' \<and> sanitize ''?!'' = []"
  by code_simp

text \<open>
  Read as text: when no label contains a line break, the diagram has five lines before
  the edges and then one line per link.
\<close>

lemma showNat_no_newline: "CHR 0x0A \<notin> set (showNat n)"
proof (induction n rule: showNat.induct)
  case (1 n)
  have d: "digit_char k \<noteq> CHR 0x0A" if "k < 10" for k
    using that of_char_digit_char [of k] by (auto simp: of_char_eq_iff [symmetric] simp del: of_char_eq_iff)
  show ?case
  proof (cases "n < 10")
    case True
    then show ?thesis using d [of n] by (subst showNat.simps) simp
  next
    case False
    then show ?thesis using 1 d [of "n mod 10"] by (subst showNat.simps) simp
  qed
qed

lemma line_breaks_append: "line_breaks (xs @ ys) = line_breaks xs + line_breaks ys"
  by (simp add: line_breaks_def)

lemma line_breaks_simps:
  "line_breaks [] = 0"
  "line_breaks (x # xs) = (if x = CHR 0x0A then 1 else 0) + line_breaks xs"
  by (simp_all add: line_breaks_def)

lemma line_breaks_none: "CHR 0x0A \<notin> set s \<Longrightarrow> line_breaks s = 0"
  by (induction s) (auto simp: line_breaks_def)

lemma line_breaks_edgeDecl:
  "CHR 0x0A \<notin> set (displayText nd) \<Longrightarrow> line_breaks (edgeDecl i nd) = 1"
  using showNat_no_newline [of i]
  by (simp add: edgeDecl_def nodeId_def line_breaks_append line_breaks_none line_breaks_simps
        newline_def dquote_def)

lemma line_breaks_concat:
  "(\<And>x. x \<in> set xs \<Longrightarrow> line_breaks x = 1) \<Longrightarrow> line_breaks (concat xs) = length xs"
  by (induction xs) (simp_all add: line_breaks_append line_breaks_simps)

lemma generateMermaid_line_count:
  assumes "CHR 0x0A \<notin> set c" "CHR 0x0A \<notin> set (toLowerCase (myType d))"
    and "\<And>nd. nd \<in> set (nodes d) \<Longrightarrow> CHR 0x0A \<notin> set (displayText nd)"
  shows "line_breaks (generateMermaid d c) = 5 + length (nodes d)"
proof -
  have "line_breaks (mermaid_preamble (toLowerCase (myType d)) c) = 5"
    using assms(1,2)
    by (simp add: mermaid_preamble_def line_breaks_append line_breaks_none line_breaks_simps
          newline_def dquote_def)
  moreover have "line_breaks (concat (edgeDecls (nodes d))) = length (edgeDecls (nodes d))"
    by (rule line_breaks_concat) (auto simp: edgeDecls_def line_breaks_edgeDecl assms(3))
  ultimately show ?thesis
    by (simp add: generateMermaid_eq line_breaks_append edgeDecls_def)
qed

text \<open>
  C10. The diagram does not depend on the link targets: two connection maps with the same
  type and the same display texts, in the same order, render to the same text for any
  center label, whatever the \<open>name\<close> fields of their nodes are.
\<close>

theorem generateMermaid_ignores_names:
  "myType d1 = myType d2 \<Longrightarrow> map displayText (nodes d1) = map displayText (nodes d2)
     \<Longrightarrow> generateMermaid d1 c = generateMermaid d2 c"
  using edgeDecls_displayText [of "nodes d1" "nodes d2"] by (simp add: generateMermaid_eq)

theorem generateMermaid_ignores_names_witness:
  "generateMermaid \<lparr>myType = ''Signal'', nodes = [\<lparr>name = ''Alpha'', displayText = ''see''\<rparr>]\<rparr> ''Hub''
   = generateMermaid \<lparr>myType = ''Signal'', nodes = [\<lparr>name = ''Beta/Gamma'', displayText = ''see''\<rparr>]\<rparr> ''Hub''"
  using generateMermaid_ignores_names
    [of "\<lparr>myType = ''Signal'', nodes = [\<lparr>name = ''Alpha'', displayText = ''see''\<rparr>]\<rparr>"
        "\<lparr>myType = ''Signal'', nodes = [\<lparr>name = ''Beta/Gamma'', displayText = ''see''\<rparr>]\<rparr>" "''Hub''"]
  by simp

section \<open>The aggregator\<close>

lemma getProp_JBool: "getProp fm k = JBool True \<longleftrightarrow> fm k = Some (JBool True)"
  by (auto simp: getProp_def split: option.splits)

lemma crunch_file_skip: "file_frontmatter f = None \<Longrightarrow> crunch_file f c = Inr c"
  by (auto simp: crunch_file_def file_frontmatter_def split: option.splits)

lemma crunch_file_throws: "\<not> type_readable f \<Longrightarrow> crunch_file f c = Inl TypeError"
  by (auto simp: crunch_file_def type_readable_def file_frontmatter_def js_or_def
           split: option.splits jsval.splits)

lemma crunch_file_tallied:
  assumes "type_readable f"
  shows "crunch_file f c = Inr (tallied f c)"
proof (cases "file_frontmatter f")
  case None
  then show ?thesis
    by (auto simp: crunch_file_skip tallied_def type_among_def lowered_type_def
          isBreakthrough_def file_frontmatter_def split: option.splits)
next
  case (Some fm)
  then obtain ch where ch: "cache f = Some ch" "frontmatter ch = Some fm"
    by (auto simp: file_frontmatter_def split: option.splits)
  from assms Some
  have "\<exists>t. call_toLowerCase (js_or (getProp fm ''type'') (JStr [])) = Inr t
            \<and> lowered_type f = Some t"
    by (cases "getProp fm ''type''")
       (auto simp: type_readable_def js_or_def lowered_type_def toLowerCase_def)
  then obtain t where t: "call_toLowerCase (js_or (getProp fm ''type'') (JStr [])) = Inr t"
      "lowered_type f = Some t"
    by blast
  show ?thesis
    by (simp add: crunch_file_def tallied_def ch t type_among_def isBreakthrough_def
          tags_include_def getProp_JBool Let_def split: option.splits)
qed

lemma crunch_succeeds_iff:
  "(\<exists>c'. crunch files c = Inr c') \<longleftrightarrow> list_all type_readable files"
proof (induction files arbitrary: c)
  case Nil
  then show ?case by simp
next
  case (Cons f files)
  show ?case
  proof (cases "type_readable f")
    case True
    then show ?thesis using Cons.IH by (simp add: crunch_file_tallied)
  next
    case False
    then show ?thesis by (simp add: crunch_file_throws)
  qed
qed

lemma crunch_counts:
  "crunch files c = Inr c' \<Longrightarrow>
     signals c' = signals c + length (filter (type_among [''atom'', ''signal'']) files)
   \<and> patterns c' = patterns c + length (filter (type_among [''molecule'', ''pattern'']) files)
   \<and> constants c' = constants c + length (filter (type_among [''law'', ''constant'']) files)
   \<and> breakthroughs c' = breakthroughs c + length (filter isBreakthrough files)"
proof (induction files arbitrary: c)
  case Nil
  then show ?case by simp
next
  case (Cons f files)
  show ?case
  proof (cases "type_readable f")
    case True
    with Cons.prems have "crunch files (tallied f c) = Inr c'"
      by (simp add: crunch_file_tallied)
    from Cons.IH [OF this] show ?thesis by (simp add: tallied_def)
  next
    case False
    with Cons.prems show ?thesis by (simp add: crunch_file_throws)
  qed
qed

lemma tiers_exclusive:
  "(if type_among [''atom'', ''signal''] f then 1 else 0)
   + (if type_among [''molecule'', ''pattern''] f then 1 else 0)
   + (if type_among [''law'', ''constant''] f then 1 else (0::nat))
   = (if canonical_type f then 1 else 0)"
  by (auto simp: type_among_def canonical_type_def split: option.splits)

lemma tier_filters_sum:
  "length (filter (type_among [''atom'', ''signal'']) files)
   + length (filter (type_among [''molecule'', ''pattern'']) files)
   + length (filter (type_among [''law'', ''constant'']) files)
   = length (filter canonical_type files)"
proof (induction files)
  case Nil
  then show ?case by simp
next
  case (Cons f files)
  then show ?case using tiers_exclusive [of f] by (simp split: if_splits)
qed

lemma canonical_hasFrontmatter: "canonical_type f \<Longrightarrow> hasFrontmatter f"
  by (auto simp: canonical_type_def type_among_def lowered_type_def hasFrontmatter_def
           split: option.splits)

lemma filter_length_le:
  assumes "\<And>x. P x \<Longrightarrow> Q x"
  shows "length (filter P xs) \<le> length (filter Q xs)
         \<and> (length (filter P xs) = length (filter Q xs) \<longleftrightarrow> (\<forall>x \<in> set xs. Q x \<longrightarrow> P x))"
proof (induction xs)
  case Nil
  then show ?case by simp
next
  case (Cons x xs)
  then show ?case using assms [of x] by auto
qed

text \<open>
  C4. When the scan returns, its breakthrough count is the number of files that have
  frontmatter and whose tags contain \<open>#breakthrough\<close> or whose frontmatter field
  \<open>breakthrough\<close> is the boolean \<open>true\<close>; each such file is counted once, also when both
  conditions hold. The scan returns whenever every \<open>type\<close> field is a string or falsy.
\<close>

theorem breakthrough_count:
  "(aggregate files = Inr c \<longrightarrow> breakthroughs c = length (filter isBreakthrough files))
   \<and> (list_all type_readable files \<longrightarrow> (\<exists>c. aggregate files = Inr c))"
  using crunch_counts [of files initialCounts c] crunch_succeeds_iff [of files initialCounts]
  by (auto simp: aggregate_def initialCounts_def)

lemma example_vault_readable: "list_all type_readable example_vault"
  by (simp add: example_vault_def md_note_def type_readable_def file_frontmatter_def getProp_def)

lemma example_vault_breakthroughs: "length (filter isBreakthrough example_vault) = 2"
  by (simp add: example_vault_def md_note_def isBreakthrough_def)

theorem breakthrough_count_witness:
  "\<exists>c. aggregate example_vault = Inr c \<and> breakthroughs c = 2"
proof -
  from breakthrough_count [of example_vault] example_vault_readable
  obtain c where c: "aggregate example_vault = Inr c"
    by blast
  with breakthrough_count [of example_vault c] example_vault_breakthroughs
  have "breakthroughs c = 2"
    by simp
  with c show ?thesis by blast
qed

text \<open>
  C6. When the scan returns, the three tier counters add up to at most the number of
  files with frontmatter: each file adds one to at most one of them. The sum reaches that
  number exactly when every file with frontmatter has one of the six canonical types, so
  equality can hold only then. The scan returns whenever every \<open>type\<close> field is a string
  or falsy.
\<close>

theorem tier_counts_bound:
  "(aggregate files = Inr c \<longrightarrow>
     signals c + patterns c + constants c \<le> length (filter hasFrontmatter files)
   \<and> (signals c + patterns c + constants c = length (filter hasFrontmatter files)
        \<longleftrightarrow> (\<forall>f \<in> set files. hasFrontmatter f \<longrightarrow> canonical_type f))
   \<and> (\<forall>f c0 c1. crunch_file f c0 = Inr c1 \<longrightarrow>
          signals c1 + patterns c1 + constants c1 \<le> signals c0 + patterns c0 + constants c0 + 1))
   \<and> (list_all type_readable files \<longrightarrow> (\<exists>c. aggregate files = Inr c))"
proof -
  have returns: "\<exists>c. aggregate files = Inr c" if "list_all type_readable files"
    using that crunch_succeeds_iff [of files initialCounts] by (simp add: aggregate_def)
  have step: "signals c1 + patterns c1 + constants c1 \<le> signals c0 + patterns c0 + constants c0 + 1"
    if "crunch_file f c0 = Inr c1" for f c0 c1
  proof (cases "type_readable f")
    case True
    with that have "c1 = tallied f c0" by (simp add: crunch_file_tallied)
    then show ?thesis using tiers_exclusive [of f] by (simp add: tallied_def split: if_splits)
  next
    case False
    with that show ?thesis by (simp add: crunch_file_throws)
  qed
  have bound: "signals c + patterns c + constants c \<le> length (filter hasFrontmatter files)
      \<and> (signals c + patterns c + constants c = length (filter hasFrontmatter files)
           \<longleftrightarrow> (\<forall>f \<in> set files. hasFrontmatter f \<longrightarrow> canonical_type f))"
    if agg: "aggregate files = Inr c"
  proof -
    have "signals c + patterns c + constants c = length (filter canonical_type files)"
      using crunch_counts [of files initialCounts c] agg tier_filters_sum [of files]
      by (simp add: aggregate_def initialCounts_def)
    with filter_length_le [of canonical_type hasFrontmatter files, OF canonical_hasFrontmatter]
    show ?thesis by simp
  qed
  from returns step bound show ?thesis by blast
qed

lemma aggregate_example_vault:
  "aggregate example_vault =
     Inr \<lparr>signals = 1, patterns = 1, constants = 1, breakthroughs = 2,
          constantList = [''- [[Gravity]]''], patternList = [''- [[Resonance]]'']\<rparr>"
  by code_simp

lemma example_vault_frontmatter: "length (filter hasFrontmatter example_vault) = 3"
  by code_simp

theorem tier_counts_bound_witness:
  "\<exists>c. aggregate example_vault = Inr c
       \<and> signals c + patterns c + constants c \<le> length (filter hasFrontmatter example_vault)
       \<and> signals c + patterns c + constants c = 3"
  using tier_counts_bound [of example_vault
      "\<lparr>signals = 1, patterns = 1, constants = 1, breakthroughs = 2,
          constantList = [''- [[Gravity]]''], patternList = [''- [[Resonance]]'']\<rparr>"]
    aggregate_example_vault example_vault_frontmatter
  by simp

section \<open>The aggregator against the classifier\<close>

lemma classifier_tier_label:
  "getProp fm ''type'' = JStr t \<Longrightarrow> t \<noteq> [] \<Longrightarrow>
     scanConnections_myType s (Some fm) = Inr (tier_label s (tier_lookup t))"
  by (auto simp: scanConnections_myType_def tier_lookup_def)

lemma classifier_default:
  "getProp fm ''type'' = JUndefined \<or> getProp fm ''type'' = JStr [] \<Longrightarrow>
     scanConnections_myType s (Some fm) = Inr (level1 (schema s))"
  by (auto simp: scanConnections_myType_def)

lemma tallied_tier_counters:
  assumes "cache f = Some ch" "frontmatter ch = Some fm" "getProp fm ''type'' = JStr t"
  shows "tier_counters (tallied f c) = tier_bucket (tier_lookup t) (tier_counters c)"
proof -
  have "lowered_type f = Some (toLowerCase t)"
    using assms by (simp add: lowered_type_def file_frontmatter_def)
  then show ?thesis
    by (auto simp: tier_counters_def tallied_def type_among_def tier_lookup_def)
qed

lemma tallied_untyped:
  assumes "cache f = Some ch" "frontmatter ch = Some fm"
    "getProp fm ''type'' = JUndefined \<or> getProp fm ''type'' = JStr []"
  shows "tier_counters (tallied f c) = tier_counters c"
proof -
  have "lowered_type f = Some []"
    using assms by (auto simp: lowered_type_def file_frontmatter_def toLowerCase_def)
  then show ?thesis
    by (simp add: tier_counters_def tallied_def type_among_def)
qed

lemma readable_string_or_absent:
  assumes "cache f = Some ch" "frontmatter ch = Some fm"
    "getProp fm ''type'' = JUndefined \<or> getProp fm ''type'' = JStr t"
  shows "type_readable f"
  using assms by (auto simp: type_readable_def file_frontmatter_def)

text \<open>
  C2, as amended. For a document with frontmatter whose \<open>type\<close> is a non-empty string,
  the scan counts the document in exactly the tier bucket that the classification of
  \<open>scanConnections\<close> assigns it, and in no bucket when the type is a custom string. A
  document with frontmatter whose \<open>type\<close> is absent or the empty string is counted in no
  bucket either, although the classification gives it the level-1 label: custom types are
  not the only exception.
\<close>

theorem tier_buckets_agree:
  assumes "cache f = Some ch" and "frontmatter ch = Some fm"
  shows "(getProp fm ''type'' = JStr t \<and> t \<noteq> [] \<longrightarrow>
            scanConnections_myType s (Some fm) = Inr (tier_label s (tier_lookup t))
          \<and> (\<exists>c'. crunch_file f c = Inr c'
                 \<and> tier_counters c' = tier_bucket (tier_lookup t) (tier_counters c)))
       \<and> (getProp fm ''type'' = JUndefined \<or> getProp fm ''type'' = JStr [] \<longrightarrow>
            scanConnections_myType s (Some fm) = Inr (level1 (schema s))
          \<and> (\<exists>c'. crunch_file f c = Inr c' \<and> tier_counters c' = tier_counters c))"
proof (intro conjI impI)
  assume t: "getProp fm ''type'' = JStr t \<and> t \<noteq> []"
  then show "scanConnections_myType s (Some fm) = Inr (tier_label s (tier_lookup t))"
    by (simp add: classifier_tier_label)
  from t assms have "type_readable f"
    using readable_string_or_absent [of f ch fm t] by simp
  then have "crunch_file f c = Inr (tallied f c)"
    by (rule crunch_file_tallied)
  with t assms tallied_tier_counters [of f ch fm t c]
  show "\<exists>c'. crunch_file f c = Inr c'
           \<and> tier_counters c' = tier_bucket (tier_lookup t) (tier_counters c)"
    by simp
next
  assume u: "getProp fm ''type'' = JUndefined \<or> getProp fm ''type'' = JStr []"
  then show "scanConnections_myType s (Some fm) = Inr (level1 (schema s))"
    by (rule classifier_default)
  from u assms have "type_readable f"
    using readable_string_or_absent [of f ch fm "[]"] by simp
  then have "crunch_file f c = Inr (tallied f c)"
    by (rule crunch_file_tallied)
  with u assms tallied_untyped [of f ch fm c]
  show "\<exists>c'. crunch_file f c = Inr c' \<and> tier_counters c' = tier_counters c"
    by simp
qed

lemma tier_lookup_Law: "tier_lookup ''Law'' = Tier3"
  by code_simp

lemma tier_lookup_Idea: "tier_lookup ''Idea'' = Custom ''Idea''"
  by code_simp

theorem tier_buckets_agree_witness:
  "scanConnections_myType DEFAULT_SETTINGS (Some [''type'' \<mapsto> JStr ''Law'']) = Inr ''Constant''
   \<and> (\<exists>c'. crunch_file (md_note ''Gravity'' (Some [''type'' \<mapsto> JStr ''Law'']) None) initialCounts = Inr c'
          \<and> tier_counters c' = (0, 0, 1))
   \<and> scanConnections_myType DEFAULT_SETTINGS (Some [''type'' \<mapsto> JStr ''Idea'']) = Inr ''Idea''
   \<and> (\<exists>c'. crunch_file (md_note ''Musing'' (Some [''type'' \<mapsto> JStr ''Idea'']) None) initialCounts = Inr c'
          \<and> tier_counters c' = (0, 0, 0))"
proof -
  have a: "scanConnections_myType DEFAULT_SETTINGS (Some [''type'' \<mapsto> JStr ''Law'']) = Inr ''Constant''
     \<and> (\<exists>c'. crunch_file (md_note ''Gravity'' (Some [''type'' \<mapsto> JStr ''Law'']) None) initialCounts = Inr c'
          \<and> tier_counters c' = (0, 0, 1))"
    using tier_buckets_agree [of "md_note ''Gravity'' (Some [''type'' \<mapsto> JStr ''Law'']) None"
        "\<lparr>links = None, frontmatter = Some [''type'' \<mapsto> JStr ''Law''], tags = None\<rparr>"
        "[''type'' \<mapsto> JStr ''Law'']" "''Law''" DEFAULT_SETTINGS initialCounts] tier_lookup_Law
    by (simp add: md_note_def getProp_def DEFAULT_SETTINGS_def tier_counters_def initialCounts_def)
  have b: "scanConnections_myType DEFAULT_SETTINGS (Some [''type'' \<mapsto> JStr ''Idea'']) = Inr ''Idea''
   \<and> (\<exists>c'. crunch_file (md_note ''Musing'' (Some [''type'' \<mapsto> JStr ''Idea'']) None) initialCounts = Inr c'
          \<and> tier_counters c' = (0, 0, 0))"
    using tier_buckets_agree [of "md_note ''Musing'' (Some [''type'' \<mapsto> JStr ''Idea'']) None"
        "\<lparr>links = None, frontmatter = Some [''type'' \<mapsto> JStr ''Idea''], tags = None\<rparr>"
        "[''type'' \<mapsto> JStr ''Idea'']" "''Idea''" DEFAULT_SETTINGS initialCounts] tier_lookup_Idea
    by (simp add: md_note_def getProp_def DEFAULT_SETTINGS_def tier_counters_def initialCounts_def)
  from a b show ?thesis by simp
qed

text \<open>
  The claim as stated fails on a document that has frontmatter and no \<open>type\<close> field:
  the classification assigns it tier 1, its type is not a custom string, and the scan
  leaves all three tier counters as they were.
\<close>

theorem tier_buckets_counterexample:
  "file_frontmatter (md_note ''Untitled'' (Some [''title'' \<mapsto> JStr ''Untitled'']) None)
     = Some [''title'' \<mapsto> JStr ''Untitled'']
   \<and> getProp [''title'' \<mapsto> JStr ''Untitled''] ''type'' = JUndefined
   \<and> scanConnections_myType DEFAULT_SETTINGS (Some [''title'' \<mapsto> JStr ''Untitled''])
       = Inr (tier_label DEFAULT_SETTINGS Tier1)
   \<and> crunch_file (md_note ''Untitled'' (Some [''title'' \<mapsto> JStr ''Untitled'']) None) initialCounts
       = Inr initialCounts
   \<and> tier_counters initialCounts \<noteq> tier_bucket Tier1 (tier_counters initialCounts)"
  by (simp add: file_frontmatter_def md_note_def getProp_def scanConnections_myType_def
        crunch_file_def js_or_def tags_include_def tier_counters_def initialCounts_def toLowerCase_def)

section \<open>The loaded settings\<close>

lemma Object_assign_two:
  "Object_assign target [Some a, b] = target ++ a ++ (case b of None \<Rightarrow> Map.empty | Some d \<Rightarrow> d)"
  by (cases b) simp_all

text \<open>
  C9. The loaded settings are the defaults overridden, key by key, by the stored record:
  a key of the stored record has the stored value, and any other key has its default,
  \<open>analysisFolder: 'Data Analytics'\<close> and
  \<open>schema: {level1: 'Signal', level2: 'Pattern', level3: 'Constant'}\<close>. The merge is
  shallow: a stored \<open>schema\<close> replaces the default schema object as a whole.
\<close>

theorem loadSettings_merge:
  "loadSettings data k =
     (case data of
        None \<Rightarrow> settings_obj DEFAULT_SETTINGS k
      | Some d \<Rightarrow> (case d k of None \<Rightarrow> settings_obj DEFAULT_SETTINGS k | Some v \<Rightarrow> Some v))
   \<and> settings_obj DEFAULT_SETTINGS ''analysisFolder'' = Some (JStr ''Data Analytics'')
   \<and> settings_obj DEFAULT_SETTINGS ''schema''
       = Some (JObj [(''level1'', JStr ''Signal''), (''level2'', JStr ''Pattern''),
                     (''level3'', JStr ''Constant'')])
   \<and> dom (settings_obj DEFAULT_SETTINGS) = {''analysisFolder'', ''schema''}"
proof -
  have "loadSettings data k =
     (case data of
        None \<Rightarrow> settings_obj DEFAULT_SETTINGS k
      | Some d \<Rightarrow> (case d k of None \<Rightarrow> settings_obj DEFAULT_SETTINGS k | Some v \<Rightarrow> Some v))"
    by (simp add: loadSettings_def Object_assign_two map_add_def split: option.splits)
  moreover have "settings_obj DEFAULT_SETTINGS ''analysisFolder'' = Some (JStr ''Data Analytics'')"
    by (simp add: settings_obj_def DEFAULT_SETTINGS_def)
  moreover have "settings_obj DEFAULT_SETTINGS ''schema''
       = Some (JObj [(''level1'', JStr ''Signal''), (''level2'', JStr ''Pattern''),
                     (''level3'', JStr ''Constant'')])"
    by (simp add: settings_obj_def DEFAULT_SETTINGS_def)
  moreover have "dom (settings_obj DEFAULT_SETTINGS) = {''analysisFolder'', ''schema''}"
    by (auto simp: settings_obj_def)
  ultimately show ?thesis by blast
qed

lemma loadSettings_absent: "loadSettings None = settings_obj DEFAULT_SETTINGS"
  by (simp add: loadSettings_def)

lemma loadSettings_complete: "loadSettings (Some (settings_obj s)) = settings_obj s"
  by (rule ext) (simp add: loadSettings_def settings_obj_def map_add_def)

lemma loadSettings_partial:
  "loadSettings (Some [''analysisFolder'' \<mapsto> JStr ''Reports''])
     = settings_obj (DEFAULT_SETTINGS\<lparr>analysisFolder := ''Reports''\<rparr>)"
  by (rule ext) (simp add: loadSettings_def settings_obj_def map_add_def DEFAULT_SETTINGS_def)

lemma loadSettings_shallow:
  "loadSettings (Some [''schema'' \<mapsto> JObj [(''level1'', JStr ''Seed'')]]) ''schema''
     = Some (JObj [(''level1'', JStr ''Seed'')])"
  by (simp add: loadSettings_def map_add_def)

section \<open>The report writer\<close>

lemma isTFile_iff: "isTFile x \<longleftrightarrow> (\<exists>content. x = Some (TFile content))"
  by (auto simp: isTFile_def split: option.splits abstract_file.splits)

lemma save_result:
  assumes "saveToAnalysisFolder np s fn content h = Inr h'"
  shows "entries h' (analysisPath np s fn) = Some (TFile content)"
  using assms
  by (auto simp: saveToAnalysisFolder_def analysisPath_def getAbstractFileByPath_def
        createFolder_def modify_def create_def Notice_def openFile_def isTFile_iff Let_def
      split: if_splits sum.splits option.splits abstract_file.splits)

lemma save_replaces:
  assumes "entries h (analysisPath np s fn) = Some (TFile old)"
  shows "\<exists>h'. saveToAnalysisFolder np s fn content h = Inr h'
            \<and> entries h' (analysisPath np s fn) = Some (TFile content)
            \<and> notices h' = notices h @ [''Updated: '' @ analysisPath np s fn]
            \<and> opened h' = opened h @ [analysisPath np s fn]"
  using assms
  by (auto simp: saveToAnalysisFolder_def analysisPath_def getAbstractFileByPath_def
        createFolder_def modify_def create_def Notice_def openFile_def isTFile_iff Let_def
      split: if_splits sum.splits option.splits abstract_file.splits)

lemma save_creates:
  assumes "entries h (analysisPath np s fn) = None"
    and "analysisPath np s fn \<noteq> np (analysisFolder s)"
    and "\<not> isTFile (entries h (np (analysisFolder s)))"
  shows "\<exists>h'. saveToAnalysisFolder np s fn content h = Inr h'
            \<and> entries h' (analysisPath np s fn) = Some (TFile content)
            \<and> notices h' = notices h @ [''Created: '' @ analysisPath np s fn]
            \<and> opened h' = opened h @ [analysisPath np s fn]"
  using assms
  by (auto simp: saveToAnalysisFolder_def analysisPath_def getAbstractFileByPath_def
        createFolder_def modify_def create_def Notice_def openFile_def isTFile_iff Let_def
      split: if_splits sum.splits option.splits abstract_file.splits)

lemma save_frame:
  assumes "saveToAnalysisFolder np s fn content h = Inr h'"
    and "q \<noteq> analysisPath np s fn" and "q \<noteq> np (analysisFolder s)"
  shows "entries h' q = entries h q"
  using assms
  by (auto simp: saveToAnalysisFolder_def analysisPath_def getAbstractFileByPath_def
        createFolder_def modify_def create_def Notice_def openFile_def isTFile_iff Let_def
      split: if_splits sum.splits option.splits abstract_file.splits)

lemma save_fails_on_folder:
  assumes "entries h (analysisPath np s fn) = Some TFolder"
  shows "saveToAnalysisFolder np s fn content h = Inl HostError"
  using assms
  by (auto simp: saveToAnalysisFolder_def analysisPath_def getAbstractFileByPath_def
        createFolder_def modify_def create_def Notice_def openFile_def isTFile_iff Let_def
      split: if_splits sum.splits option.splits abstract_file.splits)

text \<open>
  C8. Whenever the report writer returns, the vault holds at the computed path a file
  with exactly the new content. If a file was there, the writer returns and that file's
  previous content is gone (replaced, not extended). If nothing was there (and the folder
  path holds a folder or nothing) the writer returns and has created the file with that
  content. The writer fails only with the host's own error; it then returns no vault.
\<close>

theorem saveToAnalysisFolder_writes:
  "(saveToAnalysisFolder np s fn content h = Inr h' \<longrightarrow>
      entries h' (analysisPath np s fn) = Some (TFile content))
   \<and> (entries h (analysisPath np s fn) = Some (TFile old) \<longrightarrow>
        (\<exists>h2. saveToAnalysisFolder np s fn content h = Inr h2
             \<and> entries h2 (analysisPath np s fn) = Some (TFile content)
             \<and> notices h2 = notices h @ [''Updated: '' @ analysisPath np s fn]))
   \<and> (entries h (analysisPath np s fn) = None
        \<and> analysisPath np s fn \<noteq> np (analysisFolder s)
        \<and> \<not> isTFile (entries h (np (analysisFolder s))) \<longrightarrow>
        (\<exists>h2. saveToAnalysisFolder np s fn content h = Inr h2
             \<and> entries h2 (analysisPath np s fn) = Some (TFile content)
             \<and> notices h2 = notices h @ [''Created: '' @ analysisPath np s fn]))"
  using save_result [of np s fn content h h'] save_replaces [of h np s fn old content]
    save_creates [of h np s fn content]
  by blast

lemma dashboard_path:
  "analysisPath (\<lambda>p. p) DEFAULT_SETTINGS ''ARCHITECT_ANALYTICS_DASHBOARD.md''
     = ''Data Analytics/ARCHITECT_ANALYTICS_DASHBOARD.md''"
  by (simp add: analysisPath_def DEFAULT_SETTINGS_def)

lemma default_folder: "analysisFolder DEFAULT_SETTINGS = ''Data Analytics''"
  by (simp add: DEFAULT_SETTINGS_def)

theorem saveToAnalysisFolder_writes_witness:
  "(\<exists>h2. saveToAnalysisFolder (\<lambda>p. p) DEFAULT_SETTINGS ''ARCHITECT_ANALYTICS_DASHBOARD.md''
            ''fresh dashboard'' vault_with_dashboard = Inr h2
        \<and> entries h2 ''Data Analytics/ARCHITECT_ANALYTICS_DASHBOARD.md'' = Some (TFile ''fresh dashboard''))
   \<and> (\<exists>h2. saveToAnalysisFolder (\<lambda>p. p) DEFAULT_SETTINGS ''ARCHITECT_ANALYTICS_DASHBOARD.md''
            ''fresh dashboard'' empty_vault = Inr h2
        \<and> entries h2 ''Data Analytics/ARCHITECT_ANALYTICS_DASHBOARD.md'' = Some (TFile ''fresh dashboard''))"
proof -
  have a: "\<exists>h2. saveToAnalysisFolder (\<lambda>p. p) DEFAULT_SETTINGS ''ARCHITECT_ANALYTICS_DASHBOARD.md''
            ''fresh dashboard'' vault_with_dashboard = Inr h2
        \<and> entries h2 ''Data Analytics/ARCHITECT_ANALYTICS_DASHBOARD.md'' = Some (TFile ''fresh dashboard'')"
    using saveToAnalysisFolder_writes [of "\<lambda>p. p" DEFAULT_SETTINGS
        "''ARCHITECT_ANALYTICS_DASHBOARD.md''" "''fresh dashboard''" vault_with_dashboard _
        "''stale dashboard''"]
    by (auto simp: dashboard_path vault_with_dashboard_def)
  have b: "\<exists>h2. saveToAnalysisFolder (\<lambda>p. p) DEFAULT_SETTINGS ''ARCHITECT_ANALYTICS_DASHBOARD.md''
            ''fresh dashboard'' empty_vault = Inr h2
        \<and> entries h2 ''Data Analytics/ARCHITECT_ANALYTICS_DASHBOARD.md'' = Some (TFile ''fresh dashboard'')"
    using saveToAnalysisFolder_writes [of "\<lambda>p. p" DEFAULT_SETTINGS
        "''ARCHITECT_ANALYTICS_DASHBOARD.md''" "''fresh dashboard''" empty_vault]
    by (auto simp: dashboard_path empty_vault_def isTFile_def default_folder)
  from a b show ?thesis by blast
qed

section \<open>Binary64 division\<close>

lemma bit_length_bounds: "0 < n \<Longrightarrow> 2 ^ (bit_length n - 1) \<le> n \<and> n < 2 ^ bit_length n"
proof (induction n rule: bit_length.induct)
  case (1 n)
  show ?case
  proof (cases "n div 2 = 0")
    case True
    with 1 have "n = 1" by (cases n) auto
    then show ?thesis by (simp add: bit_length.simps)
  next
    case False
    with 1 have IH: "2 ^ (bit_length (n div 2) - 1) \<le> n div 2" "n div 2 < 2 ^ bit_length (n div 2)"
      by auto
    from False have pos: "0 < bit_length (n div 2)"
      by (subst bit_length.simps) simp
    have bl: "bit_length n = Suc (bit_length (n div 2))"
      using 1 by (subst bit_length.simps) simp
    have "2 ^ (bit_length n - 1) = 2 * 2 ^ (bit_length (n div 2) - 1)"
      using pos bl by (cases "bit_length (n div 2)") auto
    also have "\<dots> \<le> 2 * (n div 2)" using IH by simp
    also have "\<dots> \<le> n" by simp
    finally have lo: "2 ^ (bit_length n - 1) \<le> n" .
    have "n < 2 * (n div 2) + 2" by presburger
    also have "\<dots> \<le> 2 * 2 ^ bit_length (n div 2)" using IH by simp
    finally have "n < 2 ^ bit_length n" using bl by simp
    with lo show ?thesis by simp
  qed
qed

lemma round_half_even_le: "y \<le> of_int k \<Longrightarrow> round_half_even y \<le> k"
proof -
  assume le: "y \<le> of_int k"
  show ?thesis
  proof (cases "y = of_int k")
    case True
    then show ?thesis by (simp add: round_half_even_def)
  next
    case False
    with le have "y < of_int k" by simp
    then have "\<lfloor>y\<rfloor> < k" by (simp add: floor_less_iff)
    then show ?thesis by (auto simp: round_half_even_def Let_def)
  qed
qed

lemma round_half_even_gt: "of_int k + 1 / 2 < y \<Longrightarrow> k < round_half_even y"
proof -
  assume gt: "of_int k + 1 / 2 < y"
  then have fl: "k \<le> \<lfloor>y\<rfloor>" by (simp add: le_floor_iff)
  show ?thesis
  proof (cases "k = \<lfloor>y\<rfloor>")
    case True
    with gt have "1 / 2 < y - of_int \<lfloor>y\<rfloor>" by simp
    then show ?thesis using True by (simp add: round_half_even_def Let_def)
  next
    case False
    with fl have "k < \<lfloor>y\<rfloor>" by simp
    then show ?thesis by (auto simp: round_half_even_def Let_def)
  qed
qed

lemma round_half_even_of_int: "round_half_even (of_int k) = k"
  by (simp add: round_half_even_def)

lemma bit_length_pos: "0 < n \<Longrightarrow> 0 < bit_length n"
  by (subst bit_length.simps) simp

lemma binary_exponent_lower:
  assumes "0 < a" "0 < b"
  shows "(2::rat) powi binary_exponent a b \<le> of_nat a / of_nat b"
proof (cases "(2::rat) powi (int (bit_length a) - int (bit_length b)) \<le> of_nat a / of_nat b")
  case True
  then show ?thesis by (simp add: binary_exponent_def)
next
  case False
  define la where "la = bit_length a - 1"
  define lb where "lb = bit_length b"
  have la: "bit_length a = Suc la"
    using bit_length_pos [OF assms(1)] by (simp add: la_def)
  have "(2::nat) ^ la \<le> a"
    using bit_length_bounds [OF assms(1)] by (simp add: la_def)
  then have lo: "(2::rat) ^ la \<le> of_nat a"
    by (metis of_nat_le_iff of_nat_numeral of_nat_power)
  have "b < (2::nat) ^ lb"
    using bit_length_bounds [OF assms(2)] by (simp add: lb_def)
  then have hi: "of_nat b \<le> (2::rat) ^ lb"
    by (metis less_imp_le of_nat_le_iff of_nat_numeral of_nat_power)
  have "binary_exponent a b = int la - int lb"
    using False by (simp add: binary_exponent_def la lb_def)
  then have "(2::rat) powi binary_exponent a b = 2 ^ la / 2 ^ lb"
    by (simp add: power_int_diff)
  also have "\<dots> \<le> of_nat a / of_nat b"
    using lo hi assms by (intro frac_le) auto
  finally show ?thesis .
qed

lemma binary_exponent_upper:
  assumes "0 < a" "0 < b"
  shows "of_nat a / of_nat b < (2::rat) powi (binary_exponent a b + 1)"
proof (cases "(2::rat) powi (int (bit_length a) - int (bit_length b)) \<le> of_nat a / of_nat b")
  case False
  then show ?thesis by (simp add: binary_exponent_def)
next
  case True
  define la where "la = bit_length a"
  define lb where "lb = bit_length b - 1"
  have lb: "bit_length b = Suc lb"
    using bit_length_pos [OF assms(2)] by (simp add: lb_def)
  have "a < (2::nat) ^ la"
    using bit_length_bounds [OF assms(1)] by (simp add: la_def)
  then have hi: "of_nat a < (2::rat) ^ la"
    by (metis of_nat_less_iff of_nat_numeral of_nat_power)
  have "(2::nat) ^ lb \<le> b"
    using bit_length_bounds [OF assms(2)] by (simp add: lb_def)
  then have lo: "(2::rat) ^ lb \<le> of_nat b"
    by (metis of_nat_le_iff of_nat_numeral of_nat_power)
  have "binary_exponent a b + 1 = int la - int lb"
    using True by (simp add: binary_exponent_def la_def lb)
  then have "(2::rat) powi (binary_exponent a b + 1) = 2 ^ la / 2 ^ lb"
    by (simp add: power_int_diff)
  moreover have "of_nat a / of_nat b < (2::rat) ^ la / 2 ^ lb"
    using lo hi assms by (intro frac_less) auto
  ultimately show ?thesis by simp
qed

lemma binary_exponent_le_52:
  assumes "0 < a" "a < 2 ^ 53" "0 < b"
  shows "binary_exponent a b \<le> 52"
proof -
  have "of_nat a / of_nat b \<le> (of_nat a :: rat)"
    using assms by (simp add: field_simps mult_le_cancel_left1)
  also have "(of_nat a :: rat) < 2 ^ 53"
    using assms(2) by (metis of_nat_less_iff of_nat_numeral of_nat_power)
  finally have "(2::rat) powi binary_exponent a b < 2 powi 53"
    using binary_exponent_lower [OF assms(1,3)] by simp
  then have "binary_exponent a b < 53"
    by (rule power_int_le_imp_less_exp [rotated]) simp_all
  then show ?thesis by simp
qed

lemma binary64_div_scaled:
  assumes "0 < a" "a < 2 ^ 53" "0 < b"
  defines "s \<equiv> nat (52 - binary_exponent a b)"
  shows "binary64_div a b = of_int (round_half_even (of_nat a / of_nat b * 2 ^ s)) / 2 ^ s"
    and "of_nat b < (2::rat) * 2 ^ s"
proof -
  have e: "binary_exponent a b = 52 - int s"
    using binary_exponent_le_52 [OF assms(1-3)] by (simp add: s_def)
  have ulp: "(2::rat) powi (binary_exponent a b - 52) = 1 / 2 ^ s"
    by (simp add: e power_int_minus_divide)
  show "binary64_div a b = of_int (round_half_even (of_nat a / of_nat b * 2 ^ s)) / 2 ^ s"
    using assms(1) by (simp add: binary64_div_def ulp Let_def)
  have "(2::rat) powi binary_exponent a b = 2 ^ 52 / 2 ^ s"
    by (simp add: e power_int_diff)
  with binary_exponent_lower [OF assms(1,3)]
  have "(2::rat) ^ 52 / 2 ^ s \<le> of_nat a / of_nat b"
    by simp
  then have "(2::rat) ^ 52 * of_nat b \<le> of_nat a * 2 ^ s"
    using assms(3) by (simp add: field_simps)
  also have "(of_nat a :: rat) < 2 ^ 53"
    using assms(2) by (metis of_nat_less_iff of_nat_numeral of_nat_power)
  then have "(of_nat a :: rat) * 2 ^ s < 2 ^ 53 * 2 ^ s"
    by simp
  finally have "(2::rat) ^ 52 * of_nat b < 2 ^ 52 * (2 * 2 ^ s)"
    by simp
  then show "of_nat b < (2::rat) * 2 ^ s"
    by (simp only: mult_less_cancel_left_pos zero_less_power zero_less_numeral)
qed

lemma binary64_div_gt_10_iff:
  assumes "a < 2 ^ 53" "0 < b"
  shows "10 < binary64_div a b \<longleftrightarrow> 10 * b < a"
proof (cases "a = 0")
  case True
  then show ?thesis by (simp add: binary64_div_def)
next
  case False
  then have a: "0 < a" by simp
  define s where "s = nat (52 - binary_exponent a b)"
  define U where "U = (2::rat) ^ s"
  define y where "y = of_nat a / of_nat b * U"
  have U: "0 < U" by (simp add: U_def)
  have fl: "binary64_div a b = of_int (round_half_even y) / U"
    using binary64_div_scaled(1) [OF a assms] by (simp add: s_def U_def y_def)
  have b: "of_nat b < 2 * U"
    using binary64_div_scaled(2) [OF a assms] by (simp add: s_def U_def)
  have k: "of_int (10 * 2 ^ s) = 10 * U"
    by (simp add: U_def)
  show ?thesis
  proof (cases "10 * b < a")
    case True
    then have "10 * b + 1 \<le> a" by simp
    then have "(of_nat (10 * b + 1) :: rat) \<le> of_nat a"
      by (simp only: of_nat_le_iff)
    then have "(10 * of_nat b + 1 :: rat) \<le> of_nat a"
      by simp
    then have "(10 * of_nat b + 1) * U \<le> of_nat a * U"
      using U by simp
    then have "(10 * of_nat b + 1) * U / of_nat b \<le> of_nat a * U / of_nat b"
      by (rule divide_right_mono) simp
    moreover have "(10 * of_nat b + 1) * U / of_nat b = 10 * U + U / of_nat b"
      using assms(2) by (simp add: field_simps)
    moreover have "of_nat a * U / of_nat b = y"
      by (simp add: y_def)
    ultimately have "10 * U + U / of_nat b \<le> y"
      by simp
    moreover have "1 / 2 < U / of_nat b"
      using b assms(2) by (simp add: field_simps)
    ultimately have "10 * U + 1 / 2 < y"
      by linarith
    then have "of_int (10 * 2 ^ s) + 1 / 2 < y"
      by (simp only: k)
    then have "10 * 2 ^ s < round_half_even y"
      by (rule round_half_even_gt)
    then have "(of_int (10 * 2 ^ s) :: rat) < of_int (round_half_even y)"
      by (simp only: of_int_less_iff)
    then have "10 * U < of_int (round_half_even y)"
      using k by simp
    then have "10 < binary64_div a b"
      using U by (simp add: fl field_simps)
    with True show ?thesis by simp
  next
    case False
    then have "a \<le> 10 * b" by simp
    then have "(of_nat a :: rat) \<le> of_nat (10 * b)"
      by (simp only: of_nat_le_iff)
    then have "(of_nat a :: rat) \<le> 10 * of_nat b"
      by simp
    then have "of_nat a / of_nat b \<le> (10::rat)"
      using assms(2) by (simp add: field_simps)
    then have "of_nat a / of_nat b * U \<le> 10 * U"
      using U by (simp only: mult_le_cancel_right_pos)
    then have "y \<le> 10 * U"
      by (simp add: y_def)
    then have "y \<le> of_int (10 * 2 ^ s)"
      using k by simp
    then have "round_half_even y \<le> 10 * 2 ^ s"
      by (rule round_half_even_le)
    then have "(of_int (round_half_even y) :: rat) \<le> of_int (10 * 2 ^ s)"
      by (simp only: of_int_le_iff)
    then have "binary64_div a b \<le> 10"
      using U k by (simp add: fl field_simps)
    with False show ?thesis by simp
  qed
qed

lemma binary64_div_1:
  assumes "a < 2 ^ 53"
  shows "binary64_div a 1 = of_nat a"
proof (cases "a = 0")
  case True
  then show ?thesis by (simp add: binary64_div_def)
next
  case False
  then have a: "0 < a" by simp
  define s where "s = nat (52 - binary_exponent a 1)"
  have "binary64_div a 1 = of_int (round_half_even (of_nat a / of_nat 1 * 2 ^ s)) / 2 ^ s"
    using binary64_div_scaled(1) [OF a assms, of 1] by (simp add: s_def)
  moreover have "(of_nat a / of_nat 1 * 2 ^ s :: rat) = of_int (int a * 2 ^ s)"
    by simp
  ultimately have "binary64_div a 1 = of_int (int a * 2 ^ s) / 2 ^ s"
    by (simp only: round_half_even_of_int)
  then show ?thesis by simp
qed

section \<open>The insights\<close>

lemma ratio_gt_10_iff:
  assumes "signals c < 2 ^ 53"
  shows "10 < ratio c \<longleftrightarrow> (10::rat) < of_nat (signals c) / of_nat (max (patterns c) 1)"
proof -
  define p where "p = max (patterns c) 1"
  have p: "0 < p" "(if patterns c \<noteq> 0 then patterns c else 1) = p"
    by (auto simp: p_def)
  have "10 < ratio c \<longleftrightarrow> 10 * p < signals c"
    using binary64_div_gt_10_iff [OF assms p(1)] by (simp only: ratio_def p(2))
  also have "\<dots> \<longleftrightarrow> (of_nat (10 * p) :: rat) < of_nat (signals c)"
    by (simp only: of_nat_less_iff)
  also have "\<dots> \<longleftrightarrow> (10::rat) < of_nat (signals c) / of_nat p"
    using p(1) by (simp add: field_simps)
  finally show ?thesis by (simp add: p_def)
qed

lemma insight_texts_distinct:
  "highSignalNoise r \<noteq> readyForBreakthrough"
  "highSignalNoise r \<noteq> healthyArchitecture"
  "readyForBreakthrough \<noteq> healthyArchitecture"
  by (simp_all add: highSignalNoise_def readyForBreakthrough_def healthyArchitecture_def)

lemma toFixed1_11: "toFixed1 11 = ''11.0''"
  by code_simp

text \<open>
  The printed ratio is that of the binary64 quotient: 207 / 20 is rounded to a number just
  below 10.35, which prints as 10.3.
\<close>

lemma toFixed1_ratio_example:
  "toFixed1 (ratio (initialCounts\<lparr>signals := 207, patterns := 20\<rparr>)) = ''10.3''"
  by code_simp

lemma insights_11_1:
  assumes "signals c = 11" "patterns c = 1"
  shows "insights c = highSignalNoise ''11.0''"
proof -
  have "ratio c = 11"
    using binary64_div_1 [of 11] by (simp add: ratio_def assms)
  then show ?thesis by (simp add: insights_def toFixed1_11)
qed

text \<open>
  C3. For counters below \<open>2^53\<close> the insights text is chosen by three branches tried in
  order: the high-signal-noise warning when tier1Count / max(tier2Count, 1) exceeds 10,
  else the ready-for-breakthrough tip when tier3Count is 0 and tier2Count exceeds 5, else
  the healthy-architecture message. The three texts differ, so exactly one branch is taken
  for every input. With 11 signals and 1 pattern the warning names the ratio 11.0; with 6
  patterns and no constants (and at most 60 signals, so that the first branch does not
  apply) the tip is chosen; with 2 signals, 2 patterns and 1 constant the healthy message
  is chosen.
\<close>

theorem insights_branches:
  assumes "signals c < 2 ^ 53"
  shows "insights c =
           (if (10::rat) < of_nat (signals c) / of_nat (max (patterns c) 1)
              then highSignalNoise (toFixed1 (ratio c))
            else if constants c = 0 \<and> patterns c > 5 then readyForBreakthrough
            else healthyArchitecture)
         \<and> highSignalNoise r \<noteq> readyForBreakthrough
         \<and> highSignalNoise r \<noteq> healthyArchitecture
         \<and> readyForBreakthrough \<noteq> healthyArchitecture
         \<and> (signals c = 11 \<and> patterns c = 1 \<longrightarrow> insights c = highSignalNoise ''11.0'')
         \<and> (signals c \<le> 60 \<and> patterns c = 6 \<and> constants c = 0 \<longrightarrow>
                insights c = readyForBreakthrough)
         \<and> (signals c = 2 \<and> patterns c = 2 \<and> constants c = 1 \<longrightarrow>
                insights c = healthyArchitecture)"
proof -
  have branch: "insights c =
           (if (10::rat) < of_nat (signals c) / of_nat (max (patterns c) 1)
              then highSignalNoise (toFixed1 (ratio c))
            else if constants c = 0 \<and> patterns c > 5 then readyForBreakthrough
            else healthyArchitecture)"
    using ratio_gt_10_iff [OF assms] by (simp add: insights_def)
  have ex2: "insights c = readyForBreakthrough"
    if "signals c \<le> 60 \<and> patterns c = 6 \<and> constants c = 0"
  proof -
    from that have "\<not> (10::rat) < of_nat (signals c) / of_nat (max (patterns c) 1)"
      by (simp add: field_simps)
    with that show ?thesis by (simp add: branch)
  qed
  have ex3: "insights c = healthyArchitecture"
    if "signals c = 2 \<and> patterns c = 2 \<and> constants c = 1"
    using that by (simp add: branch)
  from branch ex2 ex3 insights_11_1 [of c] insight_texts_distinct(1,2) [of r]
    insight_texts_distinct(3)
  show ?thesis by blast
qed

theorem insights_branches_witness:
  "insights (initialCounts\<lparr>signals := 11, patterns := 1\<rparr>) = highSignalNoise ''11.0''
   \<and> insights (initialCounts\<lparr>patterns := 6\<rparr>) = readyForBreakthrough
   \<and> insights (initialCounts\<lparr>signals := 2, patterns := 2, constants := 1\<rparr>) = healthyArchitecture"
proof -
  let ?c1 = "initialCounts\<lparr>signals := 11, patterns := 1\<rparr>"
  let ?c2 = "initialCounts\<lparr>patterns := 6\<rparr>"
  let ?c3 = "initialCounts\<lparr>signals := 2, patterns := 2, constants := 1\<rparr>"
  have small: "signals ?c1 < 2 ^ 53" "signals ?c2 < 2 ^ 53" "signals ?c3 < 2 ^ 53"
    by (simp_all add: initialCounts_def)
  have h1: "signals ?c1 = 11 \<and> patterns ?c1 = 1"
    by (simp add: initialCounts_def)
  have h2: "signals ?c2 \<le> 60 \<and> patterns ?c2 = 6 \<and> constants ?c2 = 0"
    by (simp add: initialCounts_def)
  have h3: "signals ?c3 = 2 \<and> patterns ?c3 = 2 \<and> constants ?c3 = 1"
    by (simp add: initialCounts_def)
  from insights_branches [OF small(1)] h1 have a: "insights ?c1 = highSignalNoise ''11.0''"
    by blast
  from insights_branches [OF small(2)] h2 have b: "insights ?c2 = readyForBreakthrough"
    by blast
  from insights_branches [OF small(3)] h3 have c: "insights ?c3 = healthyArchitecture"
    by blast
  from a b c show ?thesis by blast
qed

section \<open>The report composer\<close>

lemma dashboard_md_split:
  "dashboard_md c now = md_prefix @ now @ drop (length md_prefix) (dashboard_md c [])"
  by (simp add: dashboard_md_def dashboard_template_def md_prefix_def newline_def)

text \<open>
  C7, as amended. The rendered dashboard is a function of the counts, the member lists and
  the timestamp that is read from the clock when it is built. For equal counts and lists,
  two renderings are the same text exactly when their timestamps are the same; the text
  starts with the fixed metadata lines up to \<open>updated:\<close>, and everything after the
  timestamp depends on the counts and lists alone.
\<close>

theorem dashboard_md_deterministic:
  "(dashboard_md c t1 = dashboard_md c t2 \<longleftrightarrow> t1 = t2)
   \<and> take (length md_prefix) (dashboard_md c t1) = md_prefix
   \<and> drop (length md_prefix + length t1) (dashboard_md c t1)
       = drop (length md_prefix + length t2) (dashboard_md c t2)"
proof -
  have "dashboard_md c t1 = dashboard_md c t2 \<longleftrightarrow> t1 = t2"
    by (subst dashboard_md_split [of c t1], subst dashboard_md_split [of c t2]) simp
  moreover have "take (length md_prefix) (dashboard_md c t1) = md_prefix"
    by (subst dashboard_md_split) simp
  moreover have "drop (length md_prefix + length t) (dashboard_md c t)
      = drop (length md_prefix) (dashboard_md c [])" for t
    by (subst dashboard_md_split) simp
  ultimately show ?thesis by simp
qed

text \<open>
  The claim as stated fails: the same counts rendered at two different moments give two
  different texts.
\<close>

theorem dashboard_md_counterexample:
  "dashboard_md initialCounts ''11/2/2026, 9:00:00 AM''
     \<noteq> dashboard_md initialCounts ''11/2/2026, 9:00:01 AM''"
  by (subst dashboard_md_split [of _ "''11/2/2026, 9:00:00 AM''"],
      subst dashboard_md_split [of _ "''11/2/2026, 9:00:01 AM''"]) simp

section \<open>The dashboard command\<close>

text \<open>
  Whenever the command returns, the scan has returned counts and the vault holds the
  dashboard rendered from them at the dashboard path.
\<close>

lemma generateGlobalDashboard_writes:
  assumes "generateGlobalDashboard np s files now h = Inr h'"
  shows "\<exists>c. aggregate files = Inr c
           \<and> entries h' (analysisPath np s ''ARCHITECT_ANALYTICS_DASHBOARD.md'')
               = Some (TFile (dashboard_md c now))"
proof (cases "crunch files initialCounts")
  case (Inl e)
  with assms show ?thesis by (simp add: generateGlobalDashboard_def)
next
  case (Inr c)
  with assms have "saveToAnalysisFolder np s ''ARCHITECT_ANALYTICS_DASHBOARD.md''
      (dashboard_md c now) (Notice ''Architect: Scanning entire vault...'' h) = Inr h'"
    by (simp add: generateGlobalDashboard_def)
  from save_result [OF this] Inr show ?thesis by (simp add: aggregate_def)
qed

end
